theory Spec2Isabelle
  imports Main "HOL-Library.Word"
begin

section \<open>Values shared by the middlewares\<close>

text \<open>
  Go's \<open>int\<close> is a machine integer (64 bits on the usual targets): \<open>+\<close> wraps around.
  A byte slice is a \<open>string\<close> (a list of 8-bit characters). A Go \<open>error\<close> is
  \<open>error option\<close>, \<open>None\<close> being \<open>nil\<close>.
\<close>

type_synonym go_int = "64 word"
type_synonym bytes = string
type_synonym header = "(string \<times> string list) list"

datatype error = Error string

text \<open>The fields of \<open>*http.Request\<close> that the package reads.\<close>

record request =
  Method :: string
  URL_Path :: string
  ContentLength :: "64 word"
  Context :: nat

text \<open>A value of dynamic type (\<open>interface{}\<close>) as the extractors produce it.\<close>

datatype any = AnyString string | AnyInt go_int | AnyInt64 "64 word"

definition StatusOK :: go_int where
  "StatusOK = 200"

section \<open>The response sink and the interceptor (\<open>respInterceptor\<close>)\<close>

text \<open>
  \<open>http.ResponseWriter\<close> is an interface: a real sink is given by its three methods,
  which act on the state \<open>'e\<close> of everything outside this package (the connection, a
  recorder, ...). \<open>Write\<close> returns the byte count and the error of the transport.
\<close>

record 'e ResponseWriter =
  Header :: "'e \<Rightarrow> header"
  Write :: "bytes \<Rightarrow> 'e \<Rightarrow> (go_int \<times> error option) \<times> 'e"
  WriteHeader :: "go_int \<Rightarrow> 'e \<Rightarrow> 'e"

text \<open>
  The struct \<open>respInterceptor\<close>. Its field \<open>sendStatus sync.Once\<close> is never read or
  written by any method and is left out.
\<close>

record 'e respInterceptor =
  wroteHeader :: bool
  delegate :: "'e ResponseWriter"
  written :: go_int
  status :: go_int
  req :: request

text \<open>
  Interceptors are heap objects: a middleware allocates one per request, hands the pointer
  to the wrapped handler and reads it back afterwards. The run-time state is therefore a
  store of interceptors (addresses are natural numbers, \<open>next_interceptor\<close> is the next
  free one) beside the external state.
\<close>

record 'e world =
  interceptors :: "nat \<Rightarrow> 'e respInterceptor"
  next_interceptor :: nat
  ext :: "'e"

text \<open>\<open>&respInterceptor{delegate: w, req: r}\<close>: the other fields get their zero values.\<close>

definition new_respInterceptor ::
  "'e ResponseWriter \<Rightarrow> request \<Rightarrow> 'e world \<Rightarrow> nat \<times> 'e world" where
  "new_respInterceptor w r s =
     (let i = next_interceptor s
      in (i, s\<lparr>interceptors := (interceptors s)
                 (i := \<lparr>wroteHeader = False, delegate = w, written = 0, status = 0, req = r\<rparr>),
               next_interceptor := Suc i\<rparr>))"

definition upd_interceptor ::
  "nat \<Rightarrow> ('e respInterceptor \<Rightarrow> 'e respInterceptor) \<Rightarrow> 'e world \<Rightarrow> 'e world" where
  "upd_interceptor i f s = s\<lparr>interceptors := (interceptors s)(i := f (interceptors s i))\<rparr>"

definition respInterceptor_Header :: "nat \<Rightarrow> 'e world \<Rightarrow> header" where
  "respInterceptor_Header i s = Header (delegate (interceptors s i)) (ext s)"

definition respInterceptor_Write ::
  "nat \<Rightarrow> bytes \<Rightarrow> 'e world \<Rightarrow> (go_int \<times> error option) \<times> 'e world" where
  "respInterceptor_Write i bs s =
     (let s1 = upd_interceptor i (\<lambda>x. x\<lparr>wroteHeader := True\<rparr>) s;
          ((size, err), e) = Write (delegate (interceptors s1 i)) bs (ext s1);
          s2 = s1\<lparr>ext := e\<rparr>;
          s3 = upd_interceptor i (\<lambda>x. x\<lparr>written := written x + size\<rparr>) s2
      in ((size, err), s3))"

definition respInterceptor_WriteHeader :: "nat \<Rightarrow> go_int \<Rightarrow> 'e world \<Rightarrow> 'e world" where
  "respInterceptor_WriteHeader i statusCode s =
     (if \<not> wroteHeader (interceptors s i)
      then let s1 = s\<lparr>ext := WriteHeader (delegate (interceptors s i)) statusCode (ext s)\<rparr>
           in upd_interceptor i (\<lambda>x. x\<lparr>status := statusCode\<rparr>) s1
      else s)"

definition respInterceptor_Written :: "nat \<Rightarrow> 'e world \<Rightarrow> go_int" where
  "respInterceptor_Written i s = written (interceptors s i)"

text \<open>\<open>Status\<close> stores the default in the object before returning it.\<close>

definition respInterceptor_Status :: "nat \<Rightarrow> 'e world \<Rightarrow> go_int \<times> 'e world" where
  "respInterceptor_Status i s =
     (let s1 = (if status (interceptors s i) = 0
                then upd_interceptor i (\<lambda>x. x\<lparr>status := StatusOK\<rparr>) s
                else s)
      in (status (interceptors s1 i), s1))"

definition respInterceptor_Request :: "nat \<Rightarrow> 'e world \<Rightarrow> request" where
  "respInterceptor_Request i s = req (interceptors s i)"

text \<open>
  The method \<open>Hijack\<close> (delegation of the connection takeover) plays no part in the
  properties below and is not modelled.
\<close>

subsection \<open>What a handler holds: the real sink or a pointer to an interceptor\<close>

datatype 'e sink = RealSink "'e ResponseWriter" | Intercepted nat

fun sink_Write :: "'e sink \<Rightarrow> bytes \<Rightarrow> 'e world \<Rightarrow> (go_int \<times> error option) \<times> 'e world" where
  "sink_Write (RealSink w) bs s = (let (res, e) = Write w bs (ext s) in (res, s\<lparr>ext := e\<rparr>))"
| "sink_Write (Intercepted i) bs s = respInterceptor_Write i bs s"

fun sink_WriteHeader :: "'e sink \<Rightarrow> go_int \<Rightarrow> 'e world \<Rightarrow> 'e world" where
  "sink_WriteHeader (RealSink w) c s = s\<lparr>ext := WriteHeader w c (ext s)\<rparr>"
| "sink_WriteHeader (Intercepted i) c s = respInterceptor_WriteHeader i c s"

text \<open>
  A handler's traffic on its sink, as a sequence of calls. \<open>do_calls\<close> performs them in
  order and returns what each \<open>Write\<close> call returned to the handler.
\<close>

datatype call = CallWrite bytes | CallWriteHeader go_int

fun do_calls ::
  "'e sink \<Rightarrow> call list \<Rightarrow> 'e world \<Rightarrow> (go_int \<times> error option) list \<times> 'e world" where
  "do_calls k [] s = ([], s)"
| "do_calls k (CallWrite bs # cs) s =
     (let (res, s1) = sink_Write k bs s;
          (rs, s2) = do_calls k cs s1
      in (res # rs, s2))"
| "do_calls k (CallWriteHeader c # cs) s = do_calls k cs (sink_WriteHeader k c s)"

fun writes_of :: "call list \<Rightarrow> bytes list" where
  "writes_of [] = []"
| "writes_of (CallWrite bs # cs) = bs # writes_of cs"
| "writes_of (CallWriteHeader c # cs) = writes_of cs"

section \<open>The generic interceptor middleware\<close>

text \<open>
  A handler receives its sink and the request and acts on the run-time state. Functions
  supplied by the caller (filter, callbacks, extractors, the wrapped handler) are
  arbitrary state transformers: that one of them is not called shows as the result not
  depending on it. They are taken to be non-nil and to return.
\<close>

type_synonym 'e handler = "'e sink \<Rightarrow> request \<Rightarrow> 'e world \<Rightarrow> 'e world"

text \<open>
  The struct \<open>interceptorBuilderImpl\<close>. The after-callback receives the
  \<open>InterceptedResponse\<close>, which is the pointer to the interceptor.
\<close>

record 'e interceptorBuilderImpl =
  filterFn :: "request \<Rightarrow> 'e world \<Rightarrow> bool \<times> 'e world"
  bcb :: "request \<Rightarrow> 'e world \<Rightarrow> 'e world"
  cb :: "nat \<Rightarrow> 'e world \<Rightarrow> 'e world"

text \<open>
  Builders are heap objects too: every method has a pointer receiver and the fluent
  setters return that same pointer. The store of builders is separate from the run-time
  state (builders are configured before requests are served).
\<close>

record 'e iheap =
  ibuilders :: "nat \<Rightarrow> 'e interceptorBuilderImpl"
  next_ibuilder :: nat

definition NewInterceptorBuilder :: "'e iheap \<Rightarrow> nat \<times> 'e iheap" where
  "NewInterceptorBuilder H =
     (let i = next_ibuilder H
      in (i, H\<lparr>ibuilders := (ibuilders H)
                 (i := \<lparr>filterFn = (\<lambda>r s. (True, s)), bcb = (\<lambda>r s. s), cb = (\<lambda>ir s. s)\<rparr>),
               next_ibuilder := Suc i\<rparr>))"

definition WithRequestFilter ::
  "nat \<Rightarrow> (request \<Rightarrow> 'e world \<Rightarrow> bool \<times> 'e world) \<Rightarrow> 'e iheap \<Rightarrow> 'e iheap" where
  "WithRequestFilter i f H = H\<lparr>ibuilders := (ibuilders H)(i := (ibuilders H i)\<lparr>filterFn := f\<rparr>)\<rparr>"

definition WithBeforeCallback ::
  "nat \<Rightarrow> (request \<Rightarrow> 'e world \<Rightarrow> 'e world) \<Rightarrow> 'e iheap \<Rightarrow> 'e iheap" where
  "WithBeforeCallback i f H = H\<lparr>ibuilders := (ibuilders H)(i := (ibuilders H i)\<lparr>bcb := f\<rparr>)\<rparr>"

definition WithCallback ::
  "nat \<Rightarrow> (nat \<Rightarrow> 'e world \<Rightarrow> 'e world) \<Rightarrow> 'e iheap \<Rightarrow> 'e iheap" where
  "WithCallback i f H = H\<lparr>ibuilders := (ibuilders H)(i := (ibuilders H i)\<lparr>cb := f\<rparr>)\<rparr>"

text \<open>
  \<open>Build\<close> allocates nothing and copies nothing: it returns a closure over the receiver
  \<open>i\<close> and, once applied to \<open>next\<close>, the handler below. The handler's body reads
  \<open>i.filterFn\<close>, \<open>i.bcb\<close> and \<open>i.cb\<close> through the pointer when a request is served,
  so it is a function of the builder store \<open>H\<close> of that moment.
\<close>

definition interceptorBuilderImpl_Build ::
  "nat \<Rightarrow> 'e handler \<Rightarrow> 'e iheap \<Rightarrow> 'e ResponseWriter \<Rightarrow> request \<Rightarrow> 'e world \<Rightarrow> 'e world" where
  "interceptorBuilderImpl_Build i next H w r s =
     (let (pass, s1) = filterFn (ibuilders H i) r s
      in if pass
         then let s2 = bcb (ibuilders H i) r s1;
                  (ir, s3) = new_respInterceptor w r s2;
                  s4 = next (Intercepted ir) r s3
              in cb (ibuilders H i) ir s4
         else next (RealSink w) r s1)"

section \<open>The logging middleware\<close>

subsection \<open>Slices and their backing arrays\<close>

text \<open>
  A Go slice is a header (backing array, length, capacity); two slices may share an
  array. Arrays live in a store; a cell of function type holds \<open>None\<close> for the nil
  function, the zero value that \<open>make\<close> writes.
\<close>

record slice =
  arr :: nat
  len :: nat
  cap :: nat

record 'a arrays =
  cells :: "nat \<Rightarrow> 'a option list"
  next_array :: nat

definition slice_elems :: "slice \<Rightarrow> 'a arrays \<Rightarrow> 'a option list" where
  "slice_elems sl A = take (len sl) (cells A (arr sl))"

text \<open>\<open>make([]T, n)\<close>: a fresh array of \<open>n\<close> zero values.\<close>

definition make_slice :: "nat \<Rightarrow> 'a arrays \<Rightarrow> slice \<times> 'a arrays" where
  "make_slice n A =
     (let a = next_array A
      in (\<lparr>arr = a, len = n, cap = n\<rparr>,
          A\<lparr>cells := (cells A)(a := replicate n None), next_array := Suc a\<rparr>))"

text \<open>\<open>copy(dst, src)\<close>: overwrites the first \<open>min(len(dst), len(src))\<close> cells of \<open>dst\<close>.\<close>

definition copy_slice :: "slice \<Rightarrow> slice \<Rightarrow> 'a arrays \<Rightarrow> 'a arrays" where
  "copy_slice dst src A =
     (let n = min (len dst) (len src)
      in A\<lparr>cells := (cells A)
             (arr dst := take n (cells A (arr src)) @ drop n (cells A (arr dst)))\<rparr>)"

text \<open>
  \<open>append(sl, xs...)\<close>: writes behind the length in place when the capacity suffices,
  and moves to a fresh, sufficiently large array otherwise. How much larger is the
  runtime's choice, the parameter \<open>grow\<close> (old capacity, needed length).
\<close>

definition append_slice ::
  "(nat \<Rightarrow> nat \<Rightarrow> nat) \<Rightarrow> slice \<Rightarrow> 'a option list \<Rightarrow> 'a arrays \<Rightarrow> slice \<times> 'a arrays" where
  "append_slice grow sl xs A =
     (let n = len sl + length xs
      in if n \<le> cap sl
         then (sl\<lparr>len := n\<rparr>,
               A\<lparr>cells := (cells A)
                  (arr sl := take (len sl) (cells A (arr sl)) @ xs @ drop n (cells A (arr sl)))\<rparr>)
         else let c = max n (grow (cap sl) n); a = next_array A
              in (\<lparr>arr = a, len = n, cap = c\<rparr>,
                  A\<lparr>cells := (cells A)
                       (a := take (len sl) (cells A (arr sl)) @ xs @ replicate (c - n) None),
                    next_array := Suc a\<rparr>))"

subsection \<open>Extractors and the logger\<close>

type_synonym 'e ReqInfoExtractorFn = "request \<Rightarrow> 'e world \<Rightarrow> (string \<times> any) \<times> 'e world"
type_synonym 'e RespInfoExtractorFn = "nat \<Rightarrow> 'e world \<Rightarrow> (string \<times> any) \<times> 'e world"

definition PathReqInfoExtractor :: "'e ReqInfoExtractorFn" where
  "PathReqInfoExtractor r s = ((''path'', AnyString (URL_Path r)), s)"

definition MethodReqInfoExtractor :: "'e ReqInfoExtractorFn" where
  "MethodReqInfoExtractor r s = ((''method'', AnyString (Method r)), s)"

definition SizeReqInfoExtractor :: "'e ReqInfoExtractorFn" where
  "SizeReqInfoExtractor r s = ((''size'', AnyInt64 (ContentLength r)), s)"

definition DeferredReqInfoExtractor :: "'e ReqInfoExtractorFn \<Rightarrow> 'e ReqInfoExtractorFn" where
  "DeferredReqInfoExtractor dlg r s = dlg r s"

definition StatusRespInfoExtractor :: "'e RespInfoExtractorFn" where
  "StatusRespInfoExtractor resp s =
     (let (st, s1) = respInterceptor_Status resp s in ((''status'', AnyInt st), s1))"

definition SizeRespInfoExtractor :: "'e RespInfoExtractorFn" where
  "SizeRespInfoExtractor resp s = ((''body_size'', AnyInt (respInterceptor_Written resp s)), s)"

text \<open>
  \<open>*slog.Logger\<close>, by its method \<open>Log(ctx, level, msg, args...)\<close>: one structured log
  call, acting on the external state. \<open>slog.Level\<close> is an \<open>int\<close>.
\<close>

record 'e Logger =
  Log :: "nat \<Rightarrow> go_int \<Rightarrow> string \<Rightarrow> any list \<Rightarrow> 'e \<Rightarrow> 'e"

definition LevelInfo :: go_int where
  "LevelInfo = 0"

definition DefHttpReqMessage :: string where
  "DefHttpReqMessage = ''http request''"

definition DefHttpRespMessage :: string where
  "DefHttpRespMessage = ''http response''"

subsection \<open>The builder\<close>

record 'e loggingBuilderImpl =
  l :: "'e Logger"
  lvl :: go_int
  reqLog :: bool
  respLog :: bool
  reqMsg :: string
  respMsg :: string
  reqInfoFns :: slice
  respInfoFns :: slice

text \<open>
  The store of the logging builders: the builder objects, the backing arrays of the two
  kinds of extractor slices, and the package variables \<open>DefaultReqInfoExtractors\<close> and
  \<open>DefaultRespInfoExtractors\<close> (slice headers).
\<close>

record 'e lheap =
  builders :: "nat \<Rightarrow> 'e loggingBuilderImpl"
  next_builder :: nat
  reqArrays :: "'e ReqInfoExtractorFn arrays"
  respArrays :: "'e RespInfoExtractorFn arrays"
  DefaultReqInfoExtractors :: slice
  DefaultRespInfoExtractors :: slice

definition upd_builder ::
  "nat \<Rightarrow> ('e loggingBuilderImpl \<Rightarrow> 'e loggingBuilderImpl) \<Rightarrow> 'e lheap \<Rightarrow> 'e lheap" where
  "upd_builder b f H = H\<lparr>builders := (builders H)(b := f (builders H b))\<rparr>"

text \<open>\<open>slog.Default()\<close> is the process-wide logger, the parameter \<open>dflt\<close>.\<close>

definition NewLoggingBuilder :: "'e Logger \<Rightarrow> 'e lheap \<Rightarrow> nat \<times> 'e lheap" where
  "NewLoggingBuilder dflt H =
     (let b = next_builder H
      in (b, H\<lparr>builders := (builders H)
                 (b := \<lparr>l = dflt, lvl = LevelInfo, reqLog = True, respLog = True,
                        reqMsg = DefHttpReqMessage, respMsg = DefHttpRespMessage,
                        reqInfoFns = DefaultReqInfoExtractors H,
                        respInfoFns = DefaultRespInfoExtractors H\<rparr>),
               next_builder := Suc b\<rparr>))"

definition clone :: "nat \<Rightarrow> 'e lheap \<Rightarrow> nat \<times> 'e lheap" where
  "clone b H =
     (let src = builders H b;
          (rq, A1) = make_slice (len (reqInfoFns src)) (reqArrays H);
          (rs, B1) = make_slice (len (respInfoFns src)) (respArrays H);
          out = next_builder H;
          H1 = H\<lparr>builders := (builders H)
                  (out := \<lparr>l = l src, lvl = lvl src, reqLog = reqLog src, respLog = respLog src,
                           reqMsg = reqMsg src, respMsg = respMsg src,
                           reqInfoFns = rq, respInfoFns = rs\<rparr>),
                next_builder := Suc out, reqArrays := A1, respArrays := B1\<rparr>;
          H2 = H1\<lparr>reqArrays := copy_slice (reqInfoFns (builders H1 out))
                                  (reqInfoFns (builders H1 b)) (reqArrays H1)\<rparr>;
          H3 = H2\<lparr>respArrays := copy_slice (respInfoFns (builders H2 out))
                                   (respInfoFns (builders H2 b)) (respArrays H2)\<rparr>
      in (out, H3))"

definition ClearRequestInfoExtractors :: "nat \<Rightarrow> 'e lheap \<Rightarrow> 'e lheap" where
  "ClearRequestInfoExtractors b H =
     (let (sl, A1) = make_slice 0 (reqArrays H)
      in upd_builder b (\<lambda>x. x\<lparr>reqInfoFns := sl\<rparr>) (H\<lparr>reqArrays := A1\<rparr>))"

definition AddRequestInfoExtractors ::
  "(nat \<Rightarrow> nat \<Rightarrow> nat) \<Rightarrow> nat \<Rightarrow> 'e ReqInfoExtractorFn list \<Rightarrow> 'e lheap \<Rightarrow> 'e lheap" where
  "AddRequestInfoExtractors grow b extFns H =
     (let (sl, A1) = append_slice grow (reqInfoFns (builders H b)) (map Some extFns) (reqArrays H)
      in upd_builder b (\<lambda>x. x\<lparr>reqInfoFns := sl\<rparr>) (H\<lparr>reqArrays := A1\<rparr>))"

definition ClearResponseInfoExtractors :: "nat \<Rightarrow> 'e lheap \<Rightarrow> 'e lheap" where
  "ClearResponseInfoExtractors b H =
     (let (sl, B1) = make_slice 0 (respArrays H)
      in upd_builder b (\<lambda>x. x\<lparr>respInfoFns := sl\<rparr>) (H\<lparr>respArrays := B1\<rparr>))"

definition AddResponseInfoExtractors ::
  "(nat \<Rightarrow> nat \<Rightarrow> nat) \<Rightarrow> nat \<Rightarrow> 'e RespInfoExtractorFn list \<Rightarrow> 'e lheap \<Rightarrow> 'e lheap" where
  "AddResponseInfoExtractors grow b extFns H =
     (let (sl, B1) = append_slice grow (respInfoFns (builders H b)) (map Some extFns) (respArrays H)
      in upd_builder b (\<lambda>x. x\<lparr>respInfoFns := sl\<rparr>) (H\<lparr>respArrays := B1\<rparr>))"

definition WithRequestMessage :: "nat \<Rightarrow> string \<Rightarrow> 'e lheap \<Rightarrow> 'e lheap" where
  "WithRequestMessage b msg H = upd_builder b (\<lambda>x. x\<lparr>reqMsg := msg\<rparr>) H"

definition WithResponseMessage :: "nat \<Rightarrow> string \<Rightarrow> 'e lheap \<Rightarrow> 'e lheap" where
  "WithResponseMessage b msg H = upd_builder b (\<lambda>x. x\<lparr>respMsg := msg\<rparr>) H"

definition DisableResponseLog :: "nat \<Rightarrow> 'e lheap \<Rightarrow> 'e lheap" where
  "DisableResponseLog b H = upd_builder b (\<lambda>x. x\<lparr>respLog := False\<rparr>) H"

definition DisableRequestLog :: "nat \<Rightarrow> 'e lheap \<Rightarrow> 'e lheap" where
  "DisableRequestLog b H = upd_builder b (\<lambda>x. x\<lparr>reqLog := False\<rparr>) H"

definition WithLevel :: "nat \<Rightarrow> go_int \<Rightarrow> 'e lheap \<Rightarrow> 'e lheap" where
  "WithLevel b level H = upd_builder b (\<lambda>x. x\<lparr>lvl := level\<rparr>) H"

definition WithLogger :: "nat \<Rightarrow> 'e Logger \<Rightarrow> 'e lheap \<Rightarrow> 'e lheap" where
  "WithLogger b lg H = upd_builder b (\<lambda>x. x\<lparr>l := lg\<rparr>) H"

subsection \<open>The handler that \<open>Build\<close> returns\<close>

text \<open>
  Both loops of the handler have the same shape: call each extractor of the slice in
  order and append its key and its value to \<open>args\<close>. A nil extractor makes the call
  panic: \<open>None\<close>.
\<close>

fun args_loop ::
  "('x \<Rightarrow> 'e world \<Rightarrow> (string \<times> any) \<times> 'e world) option list \<Rightarrow> 'x \<Rightarrow> any list \<Rightarrow> 'e world
     \<Rightarrow> (any list \<times> 'e world) option" where
  "args_loop [] x args s = Some (args, s)"
| "args_loop (None # fns) x args s = None"
| "args_loop (Some fn # fns) x args s =
     (let ((k, v), s1) = fn x s
      in args_loop fns x ((args @ [AnyString k]) @ [v]) s1)"

text \<open>The first \<open>if\<close> of the handler: the request log.\<close>

definition request_log_step :: "nat \<Rightarrow> 'e lheap \<Rightarrow> request \<Rightarrow> 'e world \<Rightarrow> 'e world option" where
  "request_log_step c H r s =
     (if reqLog (builders H c)
      then case args_loop (slice_elems (reqInfoFns (builders H c)) (reqArrays H)) r [] s of
             None \<Rightarrow> None
           | Some (args, s1) \<Rightarrow>
               Some (s1\<lparr>ext := Log (l (builders H c)) (Context r) (lvl (builders H c))
                                 (reqMsg (builders H c)) args (ext s1)\<rparr>)
      else Some s)"

text \<open>The second \<open>if\<close>: dispatch to the wrapped handler, with or without interception.\<close>

definition dispatch_step ::
  "nat \<Rightarrow> 'e handler \<Rightarrow> 'e lheap \<Rightarrow> 'e ResponseWriter \<Rightarrow> request \<Rightarrow> 'e world \<Rightarrow> 'e world option" where
  "dispatch_step c next H w r s =
     (if respLog (builders H c)
      then let (ir, s1) = new_respInterceptor w r s;
               s2 = next (Intercepted ir) r s1
           in case args_loop (slice_elems (respInfoFns (builders H c)) (respArrays H)) ir [] s2 of
                None \<Rightarrow> None
              | Some (args, s3) \<Rightarrow>
                  Some (s3\<lparr>ext := Log (l (builders H c)) (Context r) (lvl (builders H c))
                                    (respMsg (builders H c)) args (ext s3)\<rparr>)
      else Some (next (RealSink w) r s))"

definition logging_handler ::
  "nat \<Rightarrow> 'e handler \<Rightarrow> 'e lheap \<Rightarrow> 'e ResponseWriter \<Rightarrow> request \<Rightarrow> 'e world \<Rightarrow> 'e world option" where
  "logging_handler c next H w r s =
     (case request_log_step c H r s of
        None \<Rightarrow> None
      | Some s1 \<Rightarrow> dispatch_step c next H w r s1)"

text \<open>
  \<open>Build\<close> clones the receiver and returns a closure over the clone \<open>c\<close>, whose pointer
  nothing else holds: the built middleware is \<open>logging_handler c\<close>.
\<close>

definition loggingBuilderImpl_Build :: "nat \<Rightarrow> 'e lheap \<Rightarrow> nat \<times> 'e lheap" where
  "loggingBuilderImpl_Build b H = clone b H"

subsection \<open>The state of the package after initialisation\<close>

text \<open>
  The two package-level slice literals have three and two elements, length equal to
  capacity. No builder exists yet; the content of unallocated addresses is immaterial.
\<close>

definition initial_lheap :: "'e lheap" where
  "initial_lheap =
     \<lparr>builders = (\<lambda>b. \<lparr>l = \<lparr>Log = (\<lambda>ctx lv msg args e. e)\<rparr>, lvl = 0, reqLog = False,
                        respLog = False, reqMsg = [], respMsg = [],
                        reqInfoFns = \<lparr>arr = 0, len = 0, cap = 0\<rparr>,
                        respInfoFns = \<lparr>arr = 0, len = 0, cap = 0\<rparr>\<rparr>),
      next_builder = 0,
      reqArrays =
        \<lparr>cells = (\<lambda>a. [])(0 := [Some MethodReqInfoExtractor, Some PathReqInfoExtractor,
                                 Some SizeReqInfoExtractor]),
         next_array = 1\<rparr>,
      respArrays =
        \<lparr>cells = (\<lambda>a. [])(0 := [Some StatusRespInfoExtractor, Some SizeRespInfoExtractor]),
         next_array = 1\<rparr>,
      DefaultReqInfoExtractors = \<lparr>arr = 0, len = 3, cap = 3\<rparr>,
      DefaultRespInfoExtractors = \<lparr>arr = 0, len = 2, cap = 2\<rparr>\<rparr>"

subsection \<open>Sequences of builder calls\<close>

text \<open>
  What a caller can do to the store of builders after a \<open>Build\<close>: any sequence of calls
  of the builder interface, each on some receiver, and of \<open>NewLoggingBuilder\<close>.
\<close>

datatype 'e builder_op =
  OpWithLogger nat "'e Logger"
  | OpWithLevel nat go_int
  | OpWithRequestMessage nat string
  | OpWithResponseMessage nat string
  | OpDisableResponseLog nat
  | OpDisableRequestLog nat
  | OpClearRequestInfoExtractors nat
  | OpAddRequestInfoExtractors nat "'e ReqInfoExtractorFn list"
  | OpClearResponseInfoExtractors nat
  | OpAddResponseInfoExtractors nat "'e RespInfoExtractorFn list"
  | OpBuild nat
  | OpNewLoggingBuilder "'e Logger"

fun apply_op :: "(nat \<Rightarrow> nat \<Rightarrow> nat) \<Rightarrow> 'e builder_op \<Rightarrow> 'e lheap \<Rightarrow> 'e lheap" where
  "apply_op grow (OpWithLogger b lg) H = WithLogger b lg H"
| "apply_op grow (OpWithLevel b level) H = WithLevel b level H"
| "apply_op grow (OpWithRequestMessage b msg) H = WithRequestMessage b msg H"
| "apply_op grow (OpWithResponseMessage b msg) H = WithResponseMessage b msg H"
| "apply_op grow (OpDisableResponseLog b) H = DisableResponseLog b H"
| "apply_op grow (OpDisableRequestLog b) H = DisableRequestLog b H"
| "apply_op grow (OpClearRequestInfoExtractors b) H = ClearRequestInfoExtractors b H"
| "apply_op grow (OpAddRequestInfoExtractors b fns) H = AddRequestInfoExtractors grow b fns H"
| "apply_op grow (OpClearResponseInfoExtractors b) H = ClearResponseInfoExtractors b H"
| "apply_op grow (OpAddResponseInfoExtractors b fns) H = AddResponseInfoExtractors grow b fns H"
| "apply_op grow (OpBuild b) H = snd (loggingBuilderImpl_Build b H)"
| "apply_op grow (OpNewLoggingBuilder dflt) H = snd (NewLoggingBuilder dflt H)"

fun apply_ops :: "(nat \<Rightarrow> nat \<Rightarrow> nat) \<Rightarrow> 'e builder_op list \<Rightarrow> 'e lheap \<Rightarrow> 'e lheap" where
  "apply_ops grow [] H = H"
| "apply_ops grow (x # xs) H = apply_ops grow xs (apply_op grow x H)"

fun receiver :: "'e builder_op \<Rightarrow> nat option" where
  "receiver (OpWithLogger b lg) = Some b"
| "receiver (OpWithLevel b level) = Some b"
| "receiver (OpWithRequestMessage b msg) = Some b"
| "receiver (OpWithResponseMessage b msg) = Some b"
| "receiver (OpDisableResponseLog b) = Some b"
| "receiver (OpDisableRequestLog b) = Some b"
| "receiver (OpClearRequestInfoExtractors b) = Some b"
| "receiver (OpAddRequestInfoExtractors b fns) = Some b"
| "receiver (OpClearResponseInfoExtractors b) = Some b"
| "receiver (OpAddResponseInfoExtractors b fns) = Some b"
| "receiver (OpBuild b) = Some b"
| "receiver (OpNewLoggingBuilder dflt) = None"

text \<open>
  The clone \<open>c\<close> that a built middleware closes over is never returned to the caller.
  \<open>calls_on_others c\<close> holds of a sequence of calls whose receivers are builders that
  exist when they are called and are not \<open>c\<close>.
\<close>

fun calls_on_others ::
  "nat \<Rightarrow> (nat \<Rightarrow> nat \<Rightarrow> nat) \<Rightarrow> 'e builder_op list \<Rightarrow> 'e lheap \<Rightarrow> bool" where
  "calls_on_others c grow [] H = True"
| "calls_on_others c grow (x # xs) H =
     ((case receiver x of None \<Rightarrow> True | Some b \<Rightarrow> b \<noteq> c \<and> b < next_builder H)
      \<and> calls_on_others c grow xs (apply_op grow x H))"

text \<open>
  A store is well formed when every slice header in it (of an existing builder, or a
  package variable) points to an allocated array.
\<close>

definition slice_ok :: "slice \<Rightarrow> 'a arrays \<Rightarrow> bool" where
  "slice_ok sl A = (arr sl < next_array A)"

definition wf_lheap :: "'e lheap \<Rightarrow> bool" where
  "wf_lheap H =
     (list_all (\<lambda>b. slice_ok (reqInfoFns (builders H b)) (reqArrays H)
                   \<and> slice_ok (respInfoFns (builders H b)) (respArrays H))
        [0 ..< next_builder H]
      \<and> slice_ok (DefaultReqInfoExtractors H) (reqArrays H)
      \<and> slice_ok (DefaultRespInfoExtractors H) (respArrays H))"

text \<open>What a built handler reads of the store: the fields and the slice contents of its builder.\<close>

definition config_of ::
  "nat \<Rightarrow> 'e lheap \<Rightarrow>
     'e Logger \<times> go_int \<times> bool \<times> bool \<times> string \<times> string
       \<times> 'e ReqInfoExtractorFn option list \<times> 'e RespInfoExtractorFn option list" where
  "config_of b H =
     (l (builders H b), lvl (builders H b), reqLog (builders H b), respLog (builders H b),
      reqMsg (builders H b), respMsg (builders H b),
      slice_elems (reqInfoFns (builders H b)) (reqArrays H),
      slice_elems (respInfoFns (builders H b)) (respArrays H))"

text \<open>
  The arrays of builder \<open>c\<close> are its own: allocated, and referenced by no other existing
  builder and by no package variable.
\<close>

definition isolated :: "nat \<Rightarrow> 'e lheap \<Rightarrow> bool" where
  "isolated c H =
     (c < next_builder H
      \<and> arr (reqInfoFns (builders H c)) < next_array (reqArrays H)
      \<and> arr (respInfoFns (builders H c)) < next_array (respArrays H)
      \<and> (\<forall>b < next_builder H. b \<noteq> c \<longrightarrow>
            arr (reqInfoFns (builders H b)) \<noteq> arr (reqInfoFns (builders H c))
            \<and> arr (respInfoFns (builders H b)) \<noteq> arr (respInfoFns (builders H c)))
      \<and> arr (DefaultReqInfoExtractors H) \<noteq> arr (reqInfoFns (builders H c))
      \<and> arr (DefaultRespInfoExtractors H) \<noteq> arr (respInfoFns (builders H c)))"

subsection \<open>The order of the fields, in the words of the specification\<close>

text \<open>
  Evaluate each extractor in list order (each on the state the previous one left), then
  flatten the label/value pairs into the fields of one log call.
\<close>

fun eval_in_order ::
  "('x \<Rightarrow> 'e world \<Rightarrow> (string \<times> any) \<times> 'e world) list \<Rightarrow> 'x \<Rightarrow> 'e world
     \<Rightarrow> (string \<times> any) list \<times> 'e world" where
  "eval_in_order [] x s = ([], s)"
| "eval_in_order (f # fs) x s =
     (let (kv, s1) = f x s;
          (kvs, s2) = eval_in_order fs x s1
      in (kv # kvs, s2))"

fun flatten_fields :: "(string \<times> any) list \<Rightarrow> any list" where
  "flatten_fields [] = []"
| "flatten_fields ((k, v) # kvs) = AnyString k # v # flatten_fields kvs"

section \<open>Worked examples\<close>

subsection \<open>Sinks, a request and an empty run-time state\<close>

text \<open>
  The external state of the examples is the list of events that reached the outside:
  what the real sink received, which callbacks ran, what was logged.
\<close>

datatype event =
  SinkWrite bytes
  | SinkWriteHeader go_int
  | BeforeCalled string
  | AfterCalled go_int go_int
  | Logged go_int string "any list"

text \<open>A sink that accepts every write in full, like a response recorder.\<close>

definition recordingSink :: "event list ResponseWriter" where
  "recordingSink =
     \<lparr>Header = (\<lambda>e. []),
      Write = (\<lambda>bs e. ((of_nat (length bs), None), e @ [SinkWrite bs])),
      WriteHeader = (\<lambda>c e. e @ [SinkWriteHeader c])\<rparr>"

text \<open>A sink whose connection breaks: it takes one byte of each write and reports an error.\<close>

definition brokenSink :: "event list ResponseWriter" where
  "brokenSink =
     \<lparr>Header = (\<lambda>e. []),
      Write = (\<lambda>bs e. ((1, Some (Error ''broken pipe'')), e @ [SinkWrite (take 1 bs)])),
      WriteHeader = (\<lambda>c e. e @ [SinkWriteHeader c])\<rparr>"

definition emptyWorld :: "event list world" where
  "emptyWorld =
     \<lparr>interceptors = (\<lambda>i. \<lparr>wroteHeader = False, delegate = recordingSink, written = 0,
                            status = 0, req = \<lparr>Method = [], URL_Path = [], ContentLength = 0,
                                               Context = 0\<rparr>\<rparr>),
      next_interceptor = 0,
      ext = []\<rparr>"

definition getHealth :: request where
  "getHealth = \<lparr>Method = ''GET'', URL_Path = ''/health'', ContentLength = 0, Context = 0\<rparr>"

subsection \<open>Runs of the interceptor\<close>

definition brokenRun :: "event list world" where
  "brokenRun =
     snd (do_calls (Intercepted 0) [CallWrite ''ab'']
            (snd (new_respInterceptor brokenSink getHealth emptyWorld)))"

definition brokenScenario :: "event list world" where
  "brokenScenario =
     snd (do_calls (Intercepted 0) [CallWrite ''ab'', CallWrite ''cde'']
            (snd (new_respInterceptor brokenSink getHealth emptyWorld)))"

definition twoHeaders :: "event list world" where
  "twoHeaders =
     snd (do_calls (Intercepted 0) [CallWriteHeader 404, CallWriteHeader 500]
            (snd (new_respInterceptor recordingSink getHealth emptyWorld)))"

subsection \<open>A generic interceptor with two callbacks\<close>

text \<open>The store before any builder exists; the content of unallocated addresses is immaterial.\<close>

definition initial_iheap :: "'e iheap" where
  "initial_iheap =
     \<lparr>ibuilders = (\<lambda>i. \<lparr>filterFn = (\<lambda>r s. (True, s)), bcb = (\<lambda>r s. s), cb = (\<lambda>ir s. s)\<rparr>),
      next_ibuilder = 0\<rparr>"

definition noteBefore :: "request \<Rightarrow> event list world \<Rightarrow> event list world" where
  "noteBefore r s = s\<lparr>ext := ext s @ [BeforeCalled (URL_Path r)]\<rparr>"

definition noteAfter :: "nat \<Rightarrow> event list world \<Rightarrow> event list world" where
  "noteAfter ir s =
     (let (st, s1) = respInterceptor_Status ir s
      in s1\<lparr>ext := ext s1 @ [AfterCalled st (respInterceptor_Written ir s1)]\<rparr>)"

definition okHandler :: "event list handler" where
  "okHandler k r s = snd (do_calls k [CallWrite ''ok''] s)"

definition rejectAll :: "request \<Rightarrow> event list world \<Rightarrow> bool \<times> event list world" where
  "rejectAll r s = (False, s)"

definition configuredIHeap :: "event list iheap" where
  "configuredIHeap =
     WithCallback 0 noteAfter (WithBeforeCallback 0 noteBefore (snd (NewInterceptorBuilder initial_iheap)))"

subsection \<open>Logging builders\<close>

text \<open>
  The logger records its calls. \<open>doubling\<close> is one possible growth policy of
  \<open>append\<close>. All stores start from one default builder, at address 0; each build
  puts its clone at address 1.
\<close>

definition eventLogger :: "event list Logger" where
  "eventLogger = \<lparr>Log = (\<lambda>ctx lv msg args e. e @ [Logged lv msg args])\<rparr>"

definition doubling :: "nat \<Rightarrow> nat \<Rightarrow> nat" where
  "doubling old needed = 2 * old"

definition defaultBuilderHeap :: "event list lheap" where
  "defaultBuilderHeap = snd (NewLoggingBuilder eventLogger initial_lheap)"

definition methodPathHeap :: "event list lheap" where
  "methodPathHeap =
     snd (loggingBuilderImpl_Build 0
       (AddRequestInfoExtractors doubling 0 [MethodReqInfoExtractor, PathReqInfoExtractor]
         (ClearRequestInfoExtractors 0 defaultBuilderHeap)))"

definition noExtractorsHeap :: "event list lheap" where
  "noExtractorsHeap =
     snd (loggingBuilderImpl_Build 0 (ClearRequestInfoExtractors 0 defaultBuilderHeap))"

definition requestOnlyHeap :: "event list lheap" where
  "requestOnlyHeap =
     snd (loggingBuilderImpl_Build 0 (DisableResponseLog 0 defaultBuilderHeap))"

definition laterCalls :: "event list builder_op list" where
  "laterCalls =
     [OpWithRequestMessage 0 ''changed'', OpClearRequestInfoExtractors 0,
      OpAddResponseInfoExtractors 0 [SizeRespInfoExtractor], OpDisableResponseLog 0]"

section \<open>Properties of the interceptor\<close>

lemma interceptors_new [simp]:
  "interceptors (snd (new_respInterceptor w r s)) (fst (new_respInterceptor w r s)) =
     \<lparr>wroteHeader = False, delegate = w, written = 0, status = 0, req = r\<rparr>"
  by (simp add: new_respInterceptor_def Let_def)

lemma written_after_Write:
  "written (interceptors (snd (respInterceptor_Write i bs s)) i) =
     written (interceptors s i) + fst (fst (respInterceptor_Write i bs s))"
  by (simp add: respInterceptor_Write_def upd_interceptor_def Let_def split: prod.splits)

lemma written_after_WriteHeader:
  "written (interceptors (respInterceptor_WriteHeader i c s) i) = written (interceptors s i)"
  by (simp add: respInterceptor_WriteHeader_def upd_interceptor_def Let_def)

lemma status_after_Write:
  "status (interceptors (snd (respInterceptor_Write i bs s)) i) = status (interceptors s i)"
  by (simp add: respInterceptor_Write_def upd_interceptor_def Let_def split: prod.splits)

lemma delegate_after_Write:
  "delegate (interceptors (snd (respInterceptor_Write i bs s)) i) = delegate (interceptors s i)"
  by (simp add: respInterceptor_Write_def upd_interceptor_def Let_def split: prod.splits)

lemma delegate_after_WriteHeader:
  "delegate (interceptors (respInterceptor_WriteHeader i c s) i) = delegate (interceptors s i)"
  by (simp add: respInterceptor_WriteHeader_def upd_interceptor_def Let_def)

lemma Write_result:
  "fst (respInterceptor_Write i bs s) = fst (Write (delegate (interceptors s i)) bs (ext s))"
  by (simp add: respInterceptor_Write_def upd_interceptor_def Let_def split: prod.splits)

lemma written_after_calls:
  "written (interceptors (snd (do_calls (Intercepted i) cs s)) i) =
     written (interceptors s i) + sum_list (map fst (fst (do_calls (Intercepted i) cs s)))"
proof (induction cs arbitrary: s)
  case Nil
  show ?case by simp
next
  case (Cons c cs)
  show ?case
  proof (cases c)
    case (CallWrite bs)
    show ?thesis
      using Cons.IH [of "snd (respInterceptor_Write i bs s)"] written_after_Write [of i bs s]
      by (simp add: CallWrite case_prod_beta Let_def add.assoc)
  next
    case (CallWriteHeader code)
    show ?thesis
      using Cons.IH [of "respInterceptor_WriteHeader i code s"]
      by (simp add: CallWriteHeader written_after_WriteHeader)
  qed
qed

lemmas eval_interceptor =
  new_respInterceptor_def upd_interceptor_def respInterceptor_Write_def
  respInterceptor_WriteHeader_def respInterceptor_Written_def respInterceptor_Status_def
  recordingSink_def emptyWorld_def getHealth_def StatusOK_def Let_def

lemma delegate_after_calls:
  "delegate (interceptors (snd (do_calls (Intercepted i) cs s)) i) = delegate (interceptors s i)"
proof (induction cs arbitrary: s)
  case Nil
  show ?case by simp
next
  case (Cons c cs)
  show ?case
  proof (cases c)
    case (CallWrite bs)
    show ?thesis
      using Cons.IH [of "snd (respInterceptor_Write i bs s)"] delegate_after_Write [of i bs s]
      by (simp add: CallWrite case_prod_beta Let_def)
  next
    case (CallWriteHeader code)
    show ?thesis
      using Cons.IH [of "respInterceptor_WriteHeader i code s"]
      by (simp add: CallWriteHeader delegate_after_WriteHeader)
  qed
qed

lemma counts_of_full_writes:
  assumes full: "\<forall>bs e. fst (fst (Write w bs e)) = of_nat (length bs)"
  shows "delegate (interceptors s i) = w \<Longrightarrow>
         map fst (fst (do_calls (Intercepted i) cs s)) = map (\<lambda>bs. of_nat (length bs)) (writes_of cs)"
proof (induction cs arbitrary: s)
  case Nil
  show ?case by simp
next
  case (Cons c cs)
  show ?case
  proof (cases c)
    case (CallWrite bs)
    have d: "delegate (interceptors (snd (respInterceptor_Write i bs s)) i) = w"
      using Cons.prems by (simp add: delegate_after_Write)
    have "fst (fst (respInterceptor_Write i bs s)) = of_nat (length bs)"
      using full Cons.prems by (simp add: Write_result)
    then show ?thesis
      using Cons.IH [OF d] by (simp add: CallWrite case_prod_beta Let_def)
  next
    case (CallWriteHeader code)
    have d: "delegate (interceptors (respInterceptor_WriteHeader i code s) i) = w"
      using Cons.prems by (simp add: delegate_after_WriteHeader)
    show ?thesis
      using Cons.IH [OF d] by (simp add: CallWriteHeader)
  qed
qed

lemma sum_list_of_nat: "sum_list (map (\<lambda>x. of_nat (f x)) xs) = (of_nat (sum_list (map f xs)) :: 'a::semiring_1)"
  by (induction xs) simp_all

lemma sint_of_nat_small:
  assumes "n < 2 ^ 63"
  shows "sint (of_nat n :: 64 word) = int n"
proof -
  have "signed_take_bit 63 (int n) = int n"
    using assms by (intro signed_take_bit_int_eq_self) simp_all
  then show ?thesis by (simp add: signed_of_nat)
qed

lemma status_after_writes:
  "status (interceptors (snd (do_calls (Intercepted i) (map CallWrite bss) s)) i) = status (interceptors s i)"
proof (induction bss arbitrary: s)
  case Nil
  show ?case by simp
next
  case (Cons bs bss)
  show ?case
    using Cons.IH [of "snd (respInterceptor_Write i bs s)"] status_after_Write [of i bs s]
    by (simp add: case_prod_beta Let_def)
qed

subsection \<open>C1: a second header write\<close>

text \<open>
  Claim C1 says that after a first \<open>WriteHeader(S)\<close> a second \<open>WriteHeader(T)\<close> is
  not forwarded and leaves \<open>Status() = S\<close>. The guard of \<open>WriteHeader\<close> tests
  \<open>wroteHeader\<close>, but only \<open>Write\<close> sets that flag. On a fresh interceptor over the
  recording sink, \<open>WriteHeader(404)\<close> followed by \<open>WriteHeader(500)\<close> reaches the real
  sink twice and \<open>Status()\<close> returns 500.
\<close>

theorem C1_second_WriteHeader_overwrites:
  "fst (new_respInterceptor recordingSink getHealth emptyWorld) = 0
   \<and> fst (respInterceptor_Status 0 twoHeaders) = 500
   \<and> ext twoHeaders = [SinkWriteHeader 404, SinkWriteHeader 500]"
  by (simp add: twoHeaders_def eval_interceptor)

subsection \<open>C4: the byte count\<close>

text \<open>
  Claim C4 as stated (\<open>Written()\<close> is the sum of the lengths of the written byte
  slices) fails on a sink that takes only part of a write: one write of the two bytes
  \<open>ab\<close> to the broken sink, which takes one byte, leaves \<open>Written() = 1\<close>.
\<close>

theorem C4_counterexample:
  "fst (new_respInterceptor brokenSink getHealth emptyWorld) = 0
   \<and> respInterceptor_Written 0 brokenRun = 1
   \<and> respInterceptor_Written 0 brokenRun \<noteq> of_nat (sum_list (map length [''ab'']))"
  by (simp add: brokenRun_def brokenSink_def eval_interceptor)

text \<open>
  Claim C4, amended: on a fresh interceptor, after any sequence of \<open>Write\<close> and
  \<open>WriteHeader\<close> calls, \<open>Written()\<close> is the sum of the byte counts that the \<open>Write\<close>
  calls returned (header writes add nothing); when the real sink accepts every write in
  full, that is the sum of the lengths of the written byte slices in Go's \<open>int\<close>, and
  as a number too as long as the sum is below \<open>2^63\<close>.
\<close>

theorem C4_Written_sums_returned_counts:
  assumes fresh: "new_respInterceptor w r s0 = (i, s1)"
    and run: "do_calls (Intercepted i) cs s1 = (rs, s2)"
  shows "respInterceptor_Written i s2 = sum_list (map fst rs)
         \<and> ((\<forall>bs e. fst (fst (Write w bs e)) = of_nat (length bs)) \<longrightarrow>
              respInterceptor_Written i s2 = of_nat (sum_list (map length (writes_of cs)))
              \<and> (sum_list (map length (writes_of cs)) < 2 ^ 63 \<longrightarrow>
                   sint (respInterceptor_Written i s2)
                     = int (sum_list (map length (writes_of cs)))))"
proof -
  have i: "i = fst (new_respInterceptor w r s0)" and s1: "s1 = snd (new_respInterceptor w r s0)"
    using fresh by simp_all
  have zero: "written (interceptors s1 i) = 0" and dlg: "delegate (interceptors s1 i) = w"
    unfolding i s1 by simp_all
  have total: "respInterceptor_Written i s2 = sum_list (map fst rs)"
    using written_after_calls [of i cs s1] run zero by (simp add: respInterceptor_Written_def)
  have "respInterceptor_Written i s2 = of_nat (sum_list (map length (writes_of cs)))"
    if full: "\<forall>bs e. fst (fst (Write w bs e)) = of_nat (length bs)"
  proof -
    have "map fst rs = map (\<lambda>bs. of_nat (length bs)) (writes_of cs)"
      using counts_of_full_writes [OF full dlg, of cs] run by simp
    then show ?thesis using total by (simp add: sum_list_of_nat)
  qed
  with total show ?thesis by (simp add: sint_of_nat_small)
qed

theorem C4_witness:
  "new_respInterceptor recordingSink getHealth emptyWorld
     = (0, snd (new_respInterceptor recordingSink getHealth emptyWorld))
   \<and> (\<forall>bs e. fst (fst (Write recordingSink bs e)) = of_nat (length bs))
   \<and> sum_list (map length (writes_of [CallWrite ''ab'', CallWriteHeader 404, CallWrite ''cde'']))
       < (2::nat) ^ 63
   \<and> sint (respInterceptor_Written 0
        (snd (do_calls (Intercepted 0) [CallWrite ''ab'', CallWriteHeader 404, CallWrite ''cde'']
               (snd (new_respInterceptor recordingSink getHealth emptyWorld))))) = 5"
proof -
  have fresh: "new_respInterceptor recordingSink getHealth emptyWorld
                = (0, snd (new_respInterceptor recordingSink getHealth emptyWorld))"
    by (simp add: new_respInterceptor_def emptyWorld_def Let_def)
  have full: "\<forall>bs e. fst (fst (Write recordingSink bs e)) = of_nat (length bs)"
    by (simp add: recordingSink_def)
  have small:
    "sum_list (map length (writes_of [CallWrite ''ab'', CallWriteHeader 404, CallWrite ''cde'']))
       < (2::nat) ^ 63"
    by simp
  have "sint (respInterceptor_Written 0
          (snd (do_calls (Intercepted 0) [CallWrite ''ab'', CallWriteHeader 404, CallWrite ''cde'']
                 (snd (new_respInterceptor recordingSink getHealth emptyWorld)))))
        = int (sum_list (map length
            (writes_of [CallWrite ''ab'', CallWriteHeader 404, CallWrite ''cde''])))"
    using C4_Written_sums_returned_counts [OF fresh surjective_pairing] full small by blast
  then show ?thesis using fresh full by simp
qed

subsection \<open>C5: the default status\<close>

text \<open>
  Claim C5 as stated (after the writes \<open>ab\<close> and \<open>cde\<close> with no header write,
  \<open>Status() = 200\<close> and \<open>Written() = 5\<close>) fails on a sink that takes only part of a
  write: on the broken sink, which takes one byte of each write, the two writes leave
  \<open>Status() = 200\<close> but \<open>Written() = 2\<close>.
\<close>

theorem C5_counterexample:
  "fst (new_respInterceptor brokenSink getHealth emptyWorld) = 0
   \<and> fst (respInterceptor_Status 0 brokenScenario) = 200
   \<and> respInterceptor_Written 0 brokenScenario = 2
   \<and> respInterceptor_Written 0 brokenScenario \<noteq> 5"
  by (simp add: brokenScenario_def brokenSink_def eval_interceptor)

text \<open>
  Claim C5, amended: on a fresh interceptor on which \<open>WriteHeader\<close> is never called,
  \<open>Status()\<close> returns 200 after any number of body writes, whatever the real sink
  answers; after the two writes \<open>ab\<close> and \<open>cde\<close>, \<open>Status()\<close> is 200 and \<open>Written()\<close>
  is the sum of the two byte counts that the writes returned, which is 5 when the sink
  took both writes in full (counts 2 and 3).
\<close>

theorem C5_default_status:
  assumes fresh: "new_respInterceptor w r s0 = (i, s1)"
    and run: "do_calls (Intercepted i) [CallWrite ''ab'', CallWrite ''cde''] s1 = (rs, s2)"
  shows "fst (respInterceptor_Status i (snd (do_calls (Intercepted i) (map CallWrite bss) s1))) = 200
         \<and> fst (respInterceptor_Status i s2) = 200
         \<and> respInterceptor_Written i s2 = sum_list (map fst rs)
         \<and> (map fst rs = [2, 3] \<longrightarrow> respInterceptor_Written i s2 = 5)"
proof -
  have i: "i = fst (new_respInterceptor w r s0)" and s1: "s1 = snd (new_respInterceptor w r s0)"
    using fresh by simp_all
  have zero: "status (interceptors s1 i) = 0" "written (interceptors s1 i) = 0"
    unfolding i s1 by simp_all
  have st: "fst (respInterceptor_Status i (snd (do_calls (Intercepted i) (map CallWrite bss) s1))) = 200"
    for bss
    using status_after_writes [of i bss s1] zero
    by (simp add: respInterceptor_Status_def upd_interceptor_def StatusOK_def Let_def)
  have st2: "fst (respInterceptor_Status i s2) = 200"
    using st [of "[''ab'', ''cde'']"] run by simp
  have total: "respInterceptor_Written i s2 = sum_list (map fst rs)"
    using written_after_calls [of i "[CallWrite ''ab'', CallWrite ''cde'']" s1] run zero
    by (simp add: respInterceptor_Written_def)
  have "respInterceptor_Written i s2 = 5" if "map fst rs = [2, 3]"
    using total that by simp
  with st st2 total show ?thesis by blast
qed

theorem C5_witness:
  "new_respInterceptor recordingSink getHealth emptyWorld =
     (0, snd (new_respInterceptor recordingSink getHealth emptyWorld))
   \<and> map fst (fst (do_calls (Intercepted 0) [CallWrite ''ab'', CallWrite ''cde'']
                     (snd (new_respInterceptor recordingSink getHealth emptyWorld)))) = [2, 3]
   \<and> fst (respInterceptor_Status 0
        (snd (do_calls (Intercepted 0) [CallWrite ''ab'', CallWrite ''cde'']
               (snd (new_respInterceptor recordingSink getHealth emptyWorld))))) = 200
   \<and> respInterceptor_Written 0
        (snd (do_calls (Intercepted 0) [CallWrite ''ab'', CallWrite ''cde'']
               (snd (new_respInterceptor recordingSink getHealth emptyWorld)))) = 5"
proof -
  have fresh: "new_respInterceptor recordingSink getHealth emptyWorld
                = (0, snd (new_respInterceptor recordingSink getHealth emptyWorld))"
    by (simp add: new_respInterceptor_def emptyWorld_def Let_def)
  have counts:
    "map fst (fst (do_calls (Intercepted 0) [CallWrite ''ab'', CallWrite ''cde'']
                     (snd (new_respInterceptor recordingSink getHealth emptyWorld)))) = [2, 3]"
    by (simp add: eval_interceptor)
  show ?thesis
    using C5_default_status [where bss = "[]", OF fresh surjective_pairing] fresh counts
    by simp
qed

subsection \<open>C9: write results are passed through\<close>

text \<open>
  Claim C9: \<open>Write\<close> on the interceptor returns exactly the byte count and the error
  that the real sink returned, leaves the outside as the real sink left it, and adds the
  returned byte count to \<open>Written()\<close>, whether or not an error came with it.
\<close>

theorem C9_Write_returns_the_sinks_result:
  "fst (respInterceptor_Write i bs s) = fst (Write (delegate (interceptors s i)) bs (ext s))
   \<and> ext (snd (respInterceptor_Write i bs s)) = snd (Write (delegate (interceptors s i)) bs (ext s))
   \<and> respInterceptor_Written i (snd (respInterceptor_Write i bs s)) =
       respInterceptor_Written i s + fst (fst (Write (delegate (interceptors s i)) bs (ext s)))"
  by (simp add: respInterceptor_Write_def respInterceptor_Written_def upd_interceptor_def
      Let_def split: prod.splits)

section \<open>Properties of the generic interceptor middleware\<close>

lemmas eval_ibuilder =
  initial_iheap_def NewInterceptorBuilder_def WithRequestFilter_def WithBeforeCallback_def
  WithCallback_def interceptorBuilderImpl_Build_def

subsection \<open>C2: the built handler and later changes of the builder\<close>

text \<open>
  Claim C2 says that the setters, called after \<open>Build\<close>, do not change what an already
  built handler does. \<open>Build\<close> copies nothing: the handler reads the builder through
  its pointer at every request. A handler is built from a builder with two callbacks and
  the default filter; it intercepts (before-callback, write, after-callback with status
  200 and 2 bytes). After \<open>WithRequestFilter\<close> on the builder with a filter that rejects
  everything, the same handler passes the request through and calls no callback.
\<close>

theorem C2_built_handler_follows_the_builder:
  "fst (NewInterceptorBuilder (initial_iheap :: event list iheap)) = 0
   \<and> ext (interceptorBuilderImpl_Build 0 okHandler configuredIHeap recordingSink getHealth emptyWorld)
       = [BeforeCalled ''/health'', SinkWrite ''ok'', AfterCalled 200 2]
   \<and> ext (interceptorBuilderImpl_Build 0 okHandler (WithRequestFilter 0 rejectAll configuredIHeap)
            recordingSink getHealth emptyWorld)
       = [SinkWrite ''ok'']"
  by (simp add: configuredIHeap_def noteBefore_def noteAfter_def okHandler_def rejectAll_def
      eval_ibuilder eval_interceptor)

subsection \<open>C6: a rejected request is passed through\<close>

text \<open>
  Claim C6: when the filter evaluates to false for a request, the handler does exactly
  what the wrapped handler does on the original sink, from the state the filter left:
  no interceptor is allocated and the result is the same whatever the two callbacks
  are, so neither is called.
\<close>

theorem C6_filter_false_passes_through:
  assumes "filterFn (ibuilders H i) r s = (False, s1)"
  shows "interceptorBuilderImpl_Build i next H w r s = next (RealSink w) r s1
         \<and> interceptorBuilderImpl_Build i next (WithCallback i f (WithBeforeCallback i g H)) w r s
             = next (RealSink w) r s1"
  using assms
  by (simp add: interceptorBuilderImpl_Build_def WithCallback_def WithBeforeCallback_def)

theorem C6_witness:
  "filterFn (ibuilders (WithRequestFilter 0 rejectAll configuredIHeap) 0) getHealth emptyWorld
     = (False, emptyWorld)
   \<and> interceptorBuilderImpl_Build 0 okHandler (WithRequestFilter 0 rejectAll configuredIHeap)
        recordingSink getHealth emptyWorld
     = okHandler (RealSink recordingSink) getHealth emptyWorld
   \<and> ext (okHandler (RealSink recordingSink) getHealth emptyWorld) = [SinkWrite ''ok'']
   \<and> next_interceptor (okHandler (RealSink recordingSink) getHealth emptyWorld) = 0"
proof -
  have f: "filterFn (ibuilders (WithRequestFilter 0 rejectAll configuredIHeap) 0) getHealth emptyWorld
             = (False, emptyWorld)"
    by (simp add: WithRequestFilter_def rejectAll_def)
  have e: "ext (okHandler (RealSink recordingSink) getHealth emptyWorld) = [SinkWrite ''ok'']
           \<and> next_interceptor (okHandler (RealSink recordingSink) getHealth emptyWorld) = 0"
    by (simp add: okHandler_def recordingSink_def emptyWorld_def)
  show ?thesis
    using C6_filter_false_passes_through [OF f, of okHandler recordingSink] f e by simp
qed

section \<open>Properties of the logging middleware\<close>

lemmas eval_lbuilder =
  defaultBuilderHeap_def initial_lheap_def NewLoggingBuilder_def clone_def loggingBuilderImpl_Build_def
  ClearRequestInfoExtractors_def AddRequestInfoExtractors_def ClearResponseInfoExtractors_def
  AddResponseInfoExtractors_def WithRequestMessage_def WithResponseMessage_def
  DisableResponseLog_def DisableRequestLog_def WithLevel_def WithLogger_def upd_builder_def
  make_slice_def copy_slice_def append_slice_def slice_elems_def
  LevelInfo_def DefHttpReqMessage_def DefHttpRespMessage_def

lemma flatten_fields_Cons:
  "flatten_fields (kv # kvs) = AnyString (fst kv) # snd kv # flatten_fields kvs"
  by (cases kv) simp

lemma args_loop_in_order:
  "args_loop (map Some fs) x args s =
     (let (kvs, s1) = eval_in_order fs x s in Some (args @ flatten_fields kvs, s1))"
proof (induction fs arbitrary: args s)
  case Nil
  show ?case by simp
next
  case (Cons f fs)
  show ?case
    by (simp add: Cons.IH case_prod_beta Let_def flatten_fields_Cons)
qed

lemma request_log_step_fields:
  assumes "reqLog (builders H c)"
    and "slice_elems (reqInfoFns (builders H c)) (reqArrays H) = map Some fs"
  shows "request_log_step c H r s =
     (let (kvs, s1) = eval_in_order fs r s
      in Some (s1\<lparr>ext := Log (l (builders H c)) (Context r) (lvl (builders H c))
                           (reqMsg (builders H c)) (flatten_fields kvs) (ext s1)\<rparr>))"
  using assms by (simp add: request_log_step_def args_loop_in_order case_prod_beta Let_def)

subsection \<open>C7: the fields of the request log entry\<close>

text \<open>
  Claim C7: when request logging is enabled and the request extractors of the built
  middleware are \<open>fs\<close>, the request-log step runs them in list order and then makes
  exactly one log call, at the configured level and with the configured message, whose
  fields are the flattened label/value pairs in that order. For the extractors method,
  path the fields are \<open>method\<close>, the method, \<open>path\<close>, the path.
\<close>

theorem C7_request_fields_in_extractor_order:
  assumes "reqLog (builders H c)"
    and "slice_elems (reqInfoFns (builders H c)) (reqArrays H) = map Some fs"
  shows "request_log_step c H r s =
           (let (kvs, s1) = eval_in_order fs r s
            in Some (s1\<lparr>ext := Log (l (builders H c)) (Context r) (lvl (builders H c))
                                 (reqMsg (builders H c)) (flatten_fields kvs) (ext s1)\<rparr>))
         \<and> (fs = [MethodReqInfoExtractor, PathReqInfoExtractor] \<longrightarrow>
              request_log_step c H r s =
                Some (s\<lparr>ext := Log (l (builders H c)) (Context r) (lvl (builders H c))
                                 (reqMsg (builders H c))
                                 [AnyString ''method'', AnyString (Method r),
                                  AnyString ''path'', AnyString (URL_Path r)] (ext s)\<rparr>))"
  using request_log_step_fields [OF assms, of r s]
  by (simp add: MethodReqInfoExtractor_def PathReqInfoExtractor_def)

lemma methodPathHeap_config:
  "config_of 1 methodPathHeap =
     (eventLogger, 0, True, True, ''http request'', ''http response'',
      [Some MethodReqInfoExtractor, Some PathReqInfoExtractor],
      [Some StatusRespInfoExtractor, Some SizeRespInfoExtractor])"
  by (simp add: config_of_def methodPathHeap_def eval_lbuilder doubling_def Let_def)

theorem C7_witness:
  "reqLog (builders methodPathHeap 1)
   \<and> slice_elems (reqInfoFns (builders methodPathHeap 1)) (reqArrays methodPathHeap)
       = map Some [MethodReqInfoExtractor, PathReqInfoExtractor]
   \<and> map_option ext (request_log_step 1 methodPathHeap getHealth emptyWorld)
       = Some [Logged 0 ''http request''
                 [AnyString ''method'', AnyString ''GET'', AnyString ''path'', AnyString ''/health'']]"
proof -
  have on: "reqLog (builders methodPathHeap 1)"
    and fns: "slice_elems (reqInfoFns (builders methodPathHeap 1)) (reqArrays methodPathHeap)
                = map Some [MethodReqInfoExtractor, PathReqInfoExtractor]"
    and cfg: "l (builders methodPathHeap 1) = eventLogger" "lvl (builders methodPathHeap 1) = 0"
      "reqMsg (builders methodPathHeap 1) = ''http request''"
    using methodPathHeap_config by (simp_all add: config_of_def)
  have "request_log_step 1 methodPathHeap getHealth emptyWorld =
          Some (emptyWorld\<lparr>ext := Log (l (builders methodPathHeap 1)) (Context getHealth)
                  (lvl (builders methodPathHeap 1)) (reqMsg (builders methodPathHeap 1))
                  [AnyString ''method'', AnyString (Method getHealth),
                   AnyString ''path'', AnyString (URL_Path getHealth)] (ext emptyWorld)\<rparr>)"
    using C7_request_fields_in_extractor_order [OF on fns] by blast
  then show ?thesis
    using on fns cfg by (simp add: eventLogger_def getHealth_def emptyWorld_def)
qed

subsection \<open>C10: no request extractors\<close>

text \<open>
  Claim C10: when request logging is enabled and the list of request extractors is
  empty, the request-log step still makes exactly one log call, with the configured
  message and level and no fields, and the handler goes on from there.
\<close>

theorem C10_empty_extractor_list_still_logs:
  assumes "reqLog (builders H c)" and "len (reqInfoFns (builders H c)) = 0"
  shows "request_log_step c H r s =
           Some (s\<lparr>ext := Log (l (builders H c)) (Context r) (lvl (builders H c))
                            (reqMsg (builders H c)) [] (ext s)\<rparr>)
         \<and> logging_handler c next H w r s =
             dispatch_step c next H w r
               (s\<lparr>ext := Log (l (builders H c)) (Context r) (lvl (builders H c))
                             (reqMsg (builders H c)) [] (ext s)\<rparr>)"
  using assms by (simp add: logging_handler_def request_log_step_def slice_elems_def)

lemma noExtractorsHeap_config:
  "config_of 1 noExtractorsHeap =
     (eventLogger, 0, True, True, ''http request'', ''http response'', [],
      [Some StatusRespInfoExtractor, Some SizeRespInfoExtractor])"
  "len (reqInfoFns (builders noExtractorsHeap 1)) = 0"
  by (simp_all add: config_of_def noExtractorsHeap_def eval_lbuilder Let_def)

theorem C10_witness:
  "reqLog (builders noExtractorsHeap 1)
   \<and> len (reqInfoFns (builders noExtractorsHeap 1)) = 0
   \<and> map_option ext (request_log_step 1 noExtractorsHeap getHealth emptyWorld)
       = Some [Logged 0 ''http request'' []]"
proof -
  have on: "reqLog (builders noExtractorsHeap 1)"
    and cfg: "l (builders noExtractorsHeap 1) = eventLogger" "lvl (builders noExtractorsHeap 1) = 0"
      "reqMsg (builders noExtractorsHeap 1) = ''http request''"
    using noExtractorsHeap_config(1) by (simp_all add: config_of_def)
  have "request_log_step 1 noExtractorsHeap getHealth emptyWorld =
          Some (emptyWorld\<lparr>ext := Log (l (builders noExtractorsHeap 1)) (Context getHealth)
                  (lvl (builders noExtractorsHeap 1)) (reqMsg (builders noExtractorsHeap 1))
                  [] (ext emptyWorld)\<rparr>)"
    using C10_empty_extractor_list_still_logs [OF on noExtractorsHeap_config(2)] by blast
  then show ?thesis
    using on cfg noExtractorsHeap_config(2)
    by (simp add: eventLogger_def getHealth_def emptyWorld_def)
qed

subsection \<open>C8: response logging disabled\<close>

text \<open>
  Claim C8: when response logging is disabled, the handler is the request-log step
  followed by the wrapped handler on the real sink: no interceptor is allocated, no
  response log call is made, and the result does not depend on the response extractors
  (replacing them changes nothing), so none is called. The request log entry, when
  enabled, is still emitted before the wrapped handler runs.
\<close>

theorem C8_response_log_disabled:
  assumes "\<not> respLog (builders H c)"
  shows "dispatch_step c next H w r s = Some (next (RealSink w) r s)
         \<and> logging_handler c next H w r s =
             (case request_log_step c H r s of
                None \<Rightarrow> None
              | Some s1 \<Rightarrow> Some (next (RealSink w) r s1))
         \<and> logging_handler c next
               (upd_builder c (\<lambda>x. x\<lparr>respInfoFns := sl\<rparr>) (H\<lparr>respArrays := B\<rparr>)) w r s
             = logging_handler c next H w r s
         \<and> (reqLog (builders H c)
              \<and> slice_elems (reqInfoFns (builders H c)) (reqArrays H) = map Some fs \<longrightarrow>
            logging_handler c next H w r s =
              (let (kvs, s1) = eval_in_order fs r s
               in Some (next (RealSink w) r
                    (s1\<lparr>ext := Log (l (builders H c)) (Context r) (lvl (builders H c))
                                  (reqMsg (builders H c)) (flatten_fields kvs) (ext s1)\<rparr>))))"
proof -
  have d: "dispatch_step c next H w r s = Some (next (RealSink w) r s)" for s
    using assms by (simp add: dispatch_step_def)
  have h: "logging_handler c next H w r s =
             (case request_log_step c H r s of
                None \<Rightarrow> None
              | Some s1 \<Rightarrow> Some (next (RealSink w) r s1))"
    by (simp add: logging_handler_def d split: option.splits)
  have i: "logging_handler c next
               (upd_builder c (\<lambda>x. x\<lparr>respInfoFns := sl\<rparr>) (H\<lparr>respArrays := B\<rparr>)) w r s
             = logging_handler c next H w r s"
    using assms
    by (simp add: logging_handler_def request_log_step_def dispatch_step_def upd_builder_def
        split: option.splits)
  have q: "logging_handler c next H w r s =
              (let (kvs, s1) = eval_in_order fs r s
               in Some (next (RealSink w) r
                    (s1\<lparr>ext := Log (l (builders H c)) (Context r) (lvl (builders H c))
                                  (reqMsg (builders H c)) (flatten_fields kvs) (ext s1)\<rparr>)))"
    if "reqLog (builders H c)"
      and "slice_elems (reqInfoFns (builders H c)) (reqArrays H) = map Some fs"
    using request_log_step_fields [OF that, of r s]
    by (simp add: h case_prod_beta Let_def)
  from d h i q show ?thesis by blast
qed

lemma requestOnlyHeap_config:
  "config_of 1 requestOnlyHeap =
     (eventLogger, 0, True, False, ''http request'', ''http response'',
      [Some MethodReqInfoExtractor, Some PathReqInfoExtractor, Some SizeReqInfoExtractor],
      [Some StatusRespInfoExtractor, Some SizeRespInfoExtractor])"
  by (simp add: config_of_def requestOnlyHeap_def eval_lbuilder Let_def)

theorem C8_witness:
  "\<not> respLog (builders requestOnlyHeap 1)
   \<and> reqLog (builders requestOnlyHeap 1)
   \<and> slice_elems (reqInfoFns (builders requestOnlyHeap 1)) (reqArrays requestOnlyHeap)
       = map Some [MethodReqInfoExtractor, PathReqInfoExtractor, SizeReqInfoExtractor]
   \<and> map_option ext (logging_handler 1 okHandler requestOnlyHeap recordingSink getHealth emptyWorld)
       = Some [Logged 0 ''http request''
                 [AnyString ''method'', AnyString ''GET'', AnyString ''path'', AnyString ''/health'',
                  AnyString ''size'', AnyInt64 0],
               SinkWrite ''ok'']
   \<and> map_option next_interceptor
         (logging_handler 1 okHandler requestOnlyHeap recordingSink getHealth emptyWorld) = Some 0"
proof -
  have off: "\<not> respLog (builders requestOnlyHeap 1)"
    and on: "reqLog (builders requestOnlyHeap 1)"
    and fns: "slice_elems (reqInfoFns (builders requestOnlyHeap 1)) (reqArrays requestOnlyHeap)
                = map Some [MethodReqInfoExtractor, PathReqInfoExtractor, SizeReqInfoExtractor]"
    and cfg: "l (builders requestOnlyHeap 1) = eventLogger" "lvl (builders requestOnlyHeap 1) = 0"
      "reqMsg (builders requestOnlyHeap 1) = ''http request''"
    using requestOnlyHeap_config by (simp_all add: config_of_def)
  have "logging_handler 1 okHandler requestOnlyHeap recordingSink getHealth emptyWorld =
          (let (kvs, s1) = eval_in_order [MethodReqInfoExtractor, PathReqInfoExtractor,
                              SizeReqInfoExtractor] getHealth emptyWorld
           in Some (okHandler (RealSink recordingSink) getHealth
                (s1\<lparr>ext := Log (l (builders requestOnlyHeap 1)) (Context getHealth)
                              (lvl (builders requestOnlyHeap 1))
                              (reqMsg (builders requestOnlyHeap 1)) (flatten_fields kvs) (ext s1)\<rparr>)))"
    using C8_response_log_disabled [OF off] on fns by blast
  then show ?thesis
    using off on fns cfg
    by (simp add: eventLogger_def getHealth_def emptyWorld_def okHandler_def recordingSink_def
        MethodReqInfoExtractor_def PathReqInfoExtractor_def SizeReqInfoExtractor_def)
qed

subsection \<open>C3: the built middleware is a snapshot\<close>

lemmas builder_calls =
  NewLoggingBuilder_def clone_def loggingBuilderImpl_Build_def
  ClearRequestInfoExtractors_def AddRequestInfoExtractors_def ClearResponseInfoExtractors_def
  AddResponseInfoExtractors_def WithRequestMessage_def WithResponseMessage_def
  DisableResponseLog_def DisableRequestLog_def WithLevel_def WithLogger_def upd_builder_def
  make_slice_def copy_slice_def append_slice_def

lemma apply_op_frame:
  assumes "isolated c H"
    and "case receiver x of None \<Rightarrow> True | Some b \<Rightarrow> b \<noteq> c \<and> b < next_builder H"
  shows "isolated c (apply_op g x H)"
    and "builders (apply_op g x H) c = builders H c"
    and "cells (reqArrays (apply_op g x H)) (arr (reqInfoFns (builders H c)))
           = cells (reqArrays H) (arr (reqInfoFns (builders H c)))"
    and "cells (respArrays (apply_op g x H)) (arr (respInfoFns (builders H c)))
           = cells (respArrays H) (arr (respInfoFns (builders H c)))"
  using assms
  by (cases x; auto simp: isolated_def builder_calls Let_def less_Suc_eq split: prod.splits if_splits)+

lemma apply_op_config:
  assumes "isolated c H"
    and "case receiver x of None \<Rightarrow> True | Some b \<Rightarrow> b \<noteq> c \<and> b < next_builder H"
  shows "config_of c (apply_op g x H) = config_of c H"
  using apply_op_frame(2,3,4) [OF assms, of g]
  by (simp add: config_of_def slice_elems_def)

lemma apply_ops_config:
  "isolated c H \<Longrightarrow> calls_on_others c g xs H \<Longrightarrow> config_of c (apply_ops g xs H) = config_of c H"
proof (induction xs arbitrary: H)
  case Nil
  show ?case by simp
next
  case (Cons x xs)
  have ok: "case receiver x of None \<Rightarrow> True | Some b \<Rightarrow> b \<noteq> c \<and> b < next_builder H"
    and rest: "calls_on_others c g xs (apply_op g x H)"
    using Cons.prems(2) by simp_all
  have iso: "isolated c (apply_op g x H)"
    by (rule apply_op_frame(1) [OF Cons.prems(1) ok])
  have "config_of c (apply_ops g xs (apply_op g x H)) = config_of c (apply_op g x H)"
    by (rule Cons.IH [OF iso rest])
  also have "\<dots> = config_of c H"
    by (rule apply_op_config [OF Cons.prems(1) ok])
  finally show ?case by simp
qed

lemma wf_lheap_slices:
  assumes "wf_lheap H"
  shows "b < next_builder H \<Longrightarrow> arr (reqInfoFns (builders H b)) < next_array (reqArrays H)"
    and "b < next_builder H \<Longrightarrow> arr (respInfoFns (builders H b)) < next_array (respArrays H)"
    and "arr (DefaultReqInfoExtractors H) < next_array (reqArrays H)"
    and "arr (DefaultRespInfoExtractors H) < next_array (respArrays H)"
  using assms by (auto simp: wf_lheap_def slice_ok_def list_all_iff)

lemma clone_isolated:
  assumes "wf_lheap H" and "clone b H = (c, H1)"
  shows "isolated c H1"
  using assms(2) wf_lheap_slices [OF assms(1)]
  by (fastforce simp: isolated_def clone_def make_slice_def copy_slice_def Let_def less_Suc_eq)

lemma clone_config:
  assumes "wf_lheap H" and "b < next_builder H" and "clone b H = (c, H1)"
  shows "config_of c H1 = config_of b H"
proof -
  have rq: "arr (reqInfoFns (builders H b)) \<noteq> next_array (reqArrays H)"
    and rs: "arr (respInfoFns (builders H b)) \<noteq> next_array (respArrays H)"
    using wf_lheap_slices(1,2) [OF assms(1,2)] by simp_all
  have nb: "b \<noteq> next_builder H"
    using assms(2) by simp
  show ?thesis
    using assms(3) rq rs nb
    by (auto simp: config_of_def slice_elems_def clone_def make_slice_def copy_slice_def Let_def)
qed

lemma handler_reads_config:
  assumes "config_of c H = config_of c' H'"
  shows "logging_handler c next H w r s = logging_handler c' next H' w r s"
proof -
  have "request_log_step c H r s = request_log_step c' H' r s" for s
    using assms by (auto simp add: config_of_def request_log_step_def split: option.splits)
  moreover have "dispatch_step c next H w r s = dispatch_step c' next H' w r s" for s
    using assms
    by (auto simp add: config_of_def dispatch_step_def Let_def split: option.splits prod.splits)
  ultimately show ?thesis by (simp add: logging_handler_def split: option.splits)
qed

text \<open>
  Claim C3: \<open>Build\<close> on builder \<open>b\<close> clones it into a builder \<open>c\<close> of its own, whose
  two slices get backing arrays of their own. After any later sequence of builder calls (setters, clearing and adding of
  extractors, further builds, new builders) on existing builders other than \<open>c\<close>, what
  the built handler reads of the store is still the configuration that \<open>b\<close> had when
  \<open>Build\<close> was called, so the handler behaves as before the calls: in particular it
  logs with the message labels of that moment.
\<close>

theorem C3_built_middleware_is_a_snapshot:
  assumes wf: "wf_lheap H0" and b: "b < next_builder H0"
    and build: "loggingBuilderImpl_Build b H0 = (c, H1)"
    and later: "calls_on_others c g xs H1"
  shows "config_of c (apply_ops g xs H1) = config_of b H0
         \<and> logging_handler c next (apply_ops g xs H1) w r s = logging_handler c next H1 w r s
         \<and> logging_handler c next (apply_ops g xs H1) w r s = logging_handler b next H0 w r s
         \<and> reqMsg (builders (apply_ops g xs H1) c) = reqMsg (builders H0 b)
         \<and> respMsg (builders (apply_ops g xs H1) c) = respMsg (builders H0 b)
         \<and> arr (reqInfoFns (builders H1 c)) \<noteq> arr (reqInfoFns (builders H1 b))
         \<and> arr (respInfoFns (builders H1 c)) \<noteq> arr (respInfoFns (builders H1 b))"
proof -
  have cl: "clone b H0 = (c, H1)"
    using build by (simp add: loggingBuilderImpl_Build_def)
  have snap: "config_of c H1 = config_of b H0"
    by (rule clone_config [OF wf b cl])
  have kept: "config_of c (apply_ops g xs H1) = config_of c H1"
    by (rule apply_ops_config [OF clone_isolated [OF wf cl] later])
  have cfg: "config_of c (apply_ops g xs H1) = config_of b H0"
    using kept snap by simp
  have h1: "logging_handler c next (apply_ops g xs H1) w r s = logging_handler c next H1 w r s"
    by (rule handler_reads_config [OF kept])
  have h0: "logging_handler c next (apply_ops g xs H1) w r s = logging_handler b next H0 w r s"
    by (rule handler_reads_config [OF cfg])
  have msgs: "reqMsg (builders (apply_ops g xs H1) c) = reqMsg (builders H0 b)"
    "respMsg (builders (apply_ops g xs H1) c) = respMsg (builders H0 b)"
    using cfg by (simp_all add: config_of_def)
  have "c = next_builder H0" and "next_builder H1 = Suc (next_builder H0)"
    using cl by (auto simp: clone_def make_slice_def copy_slice_def Let_def)
  then have "b < next_builder H1" and "b \<noteq> c"
    using b by simp_all
  then have own: "arr (reqInfoFns (builders H1 c)) \<noteq> arr (reqInfoFns (builders H1 b))"
    "arr (respInfoFns (builders H1 c)) \<noteq> arr (respInfoFns (builders H1 b))"
    using clone_isolated [OF wf cl] by (auto simp: isolated_def)
  from cfg h1 h0 msgs own show ?thesis by simp
qed

text \<open>
  Well-formedness is not a restriction: the store of the initialised package is well
  formed, and every builder call on an existing builder keeps it so.
\<close>

lemma wf_initial_lheap: "wf_lheap initial_lheap"
  by (simp add: wf_lheap_def slice_ok_def initial_lheap_def)

lemma wf_apply_op:
  assumes "wf_lheap H"
    and "case receiver x of None \<Rightarrow> True | Some b \<Rightarrow> b < next_builder H"
  shows "wf_lheap (apply_op g x H)"
  using assms
  by (cases x; auto simp: wf_lheap_def slice_ok_def list_all_iff builder_calls Let_def less_Suc_eq
      split: prod.splits if_splits)

lemma defaultBuilderHeap_facts:
  "wf_lheap defaultBuilderHeap"
  "0 < next_builder defaultBuilderHeap"
  "loggingBuilderImpl_Build 0 defaultBuilderHeap = (1, snd (loggingBuilderImpl_Build 0 defaultBuilderHeap))"
  by (simp_all add: defaultBuilderHeap_def wf_lheap_def slice_ok_def initial_lheap_def
      builder_calls Let_def)

lemma laterCalls_ok:
  "calls_on_others 1 doubling laterCalls (snd (loggingBuilderImpl_Build 0 defaultBuilderHeap))"
  by (simp add: laterCalls_def defaultBuilderHeap_def initial_lheap_def builder_calls Let_def)

lemma laterCalls_change_the_builder:
  "reqMsg (builders (apply_ops doubling laterCalls
             (snd (loggingBuilderImpl_Build 0 defaultBuilderHeap))) 0) = ''changed''"
  by (simp add: laterCalls_def defaultBuilderHeap_def initial_lheap_def builder_calls Let_def)

lemma defaultBuilderHeap_handler:
  "map_option ext (logging_handler 0 okHandler defaultBuilderHeap recordingSink getHealth emptyWorld)
     = Some [Logged 0 ''http request''
               [AnyString ''method'', AnyString ''GET'', AnyString ''path'', AnyString ''/health'',
                AnyString ''size'', AnyInt64 0],
             SinkWrite ''ok'',
             Logged 0 ''http response''
               [AnyString ''status'', AnyInt 200, AnyString ''body_size'', AnyInt 2]]"
  by (simp add: defaultBuilderHeap_def initial_lheap_def NewLoggingBuilder_def
      logging_handler_def request_log_step_def dispatch_step_def slice_elems_def
      MethodReqInfoExtractor_def PathReqInfoExtractor_def SizeReqInfoExtractor_def
      StatusRespInfoExtractor_def SizeRespInfoExtractor_def
      LevelInfo_def DefHttpReqMessage_def DefHttpRespMessage_def
      eventLogger_def okHandler_def getHealth_def emptyWorld_def recordingSink_def
      new_respInterceptor_def upd_interceptor_def respInterceptor_Write_def
      respInterceptor_Written_def respInterceptor_Status_def StatusOK_def Let_def)

theorem C3_witness:
  "wf_lheap defaultBuilderHeap
   \<and> 0 < next_builder defaultBuilderHeap
   \<and> loggingBuilderImpl_Build 0 defaultBuilderHeap
        = (1, snd (loggingBuilderImpl_Build 0 defaultBuilderHeap))
   \<and> calls_on_others 1 doubling laterCalls (snd (loggingBuilderImpl_Build 0 defaultBuilderHeap))
   \<and> reqMsg (builders (apply_ops doubling laterCalls
               (snd (loggingBuilderImpl_Build 0 defaultBuilderHeap))) 0) = ''changed''
   \<and> map_option ext
         (logging_handler 1 okHandler
            (apply_ops doubling laterCalls (snd (loggingBuilderImpl_Build 0 defaultBuilderHeap)))
            recordingSink getHealth emptyWorld)
       = Some [Logged 0 ''http request''
                 [AnyString ''method'', AnyString ''GET'', AnyString ''path'', AnyString ''/health'',
                  AnyString ''size'', AnyInt64 0],
               SinkWrite ''ok'',
               Logged 0 ''http response''
                 [AnyString ''status'', AnyInt 200, AnyString ''body_size'', AnyInt 2]]"
proof -
  have "logging_handler 1 okHandler
          (apply_ops doubling laterCalls (snd (loggingBuilderImpl_Build 0 defaultBuilderHeap)))
          recordingSink getHealth emptyWorld
        = logging_handler 0 okHandler defaultBuilderHeap recordingSink getHealth emptyWorld"
    using C3_built_middleware_is_a_snapshot [OF defaultBuilderHeap_facts laterCalls_ok]
    by blast
  then show ?thesis
    using defaultBuilderHeap_facts laterCalls_ok laterCalls_change_the_builder
      defaultBuilderHeap_handler
    by simp
qed

end
